theory Spec2Isabelle
  imports Main "HOL-Library.AList"
begin

section \<open>Python strings\<close>

text \<open>
  A Python \<^verbatim>\<open>str\<close> is a sequence of Unicode code points, so it is modelled as a list of
  natural numbers; \<open>ustr\<close> reads an ASCII literal of the source as such a list.
  A \<^verbatim>\<open>bytes\<close> value is a list of numbers below 256.
\<close>

type_synonym codepoint = nat
type_synonym pystr = "codepoint list"
type_synonym pybytes = "nat list"

definition ustr :: "string \<Rightarrow> pystr" where
  "ustr s = map of_char s"

datatype py_error = ValueError

text \<open>\<^verbatim>\<open>sep.join(xs)\<close>\<close>

fun join :: "pystr \<Rightarrow> pystr list \<Rightarrow> pystr" where
  "join sep [] = []"
| "join sep [x] = x"
| "join sep (x # y # ys) = x @ sep @ join sep (y # ys)"

text \<open>\<^verbatim>\<open>s.split(sep)\<close> for a one-element separator: the result is never empty.\<close>

fun split_on :: "nat \<Rightarrow> nat list \<Rightarrow> nat list list" where
  "split_on sep [] = [[]]"
| "split_on sep (x # xs) =
     (if x = sep then [] # split_on sep xs
      else (case split_on sep xs of
              [] \<Rightarrow> [[x]]
            | b # bs \<Rightarrow> (x # b) # bs))"

section \<open>Unicode tables of the interpreter\<close>

text \<open>
  The decimal digits of Unicode (category Nd) come in blocks of ten consecutive code points,
  digit zero first. \<open>decimal_zeros\<close> lists the first code point of every block of the
  Unicode database 14.0.0 that CPython 3.11 ships.
\<close>

definition decimal_zeros :: "codepoint list" where
  "decimal_zeros =
     [0x30, 0x660, 0x6F0, 0x7C0, 0x966, 0x9E6, 0xA66, 0xAE6, 0xB66, 0xBE6, 0xC66, 0xCE6,
      0xD66, 0xDE6, 0xE50, 0xED0, 0xF20, 0x1040, 0x1090, 0x17E0, 0x1810, 0x1946, 0x19D0,
      0x1A80, 0x1A90, 0x1B50, 0x1BB0, 0x1C40, 0x1C50, 0xA620, 0xA8D0, 0xA900, 0xA9D0,
      0xA9F0, 0xAA50, 0xABF0, 0xFF10, 0x104A0, 0x10D30, 0x11066, 0x110F0, 0x11136,
      0x111D0, 0x112F0, 0x11450, 0x114D0, 0x11650, 0x116C0, 0x11730, 0x118E0, 0x11950,
      0x11C50, 0x11D50, 0x11DA0, 0x16A60, 0x16AC0, 0x16B50, 0x1D7CE, 0x1D7D8, 0x1D7E2,
      0x1D7EC, 0x1D7F6, 0x1E140, 0x1E2F0, 0x1E950, 0x1FBF0]"

text \<open>\<^verbatim>\<open>Py_UNICODE_TODECIMAL\<close>: the digit value of a decimal digit, or nothing.\<close>

definition Py_UNICODE_TODECIMAL :: "codepoint \<Rightarrow> nat option" where
  "Py_UNICODE_TODECIMAL c =
     (case filter (\<lambda>z. z \<le> c \<and> c < z + 10) decimal_zeros of
        [] \<Rightarrow> None
      | z # _ \<Rightarrow> Some (c - z))"

text \<open>\<^verbatim>\<open>Py_UNICODE_ISDECIMAL\<close>, which is what \<^verbatim>\<open>\d\<close> tests in a \<^verbatim>\<open>str\<close> pattern.\<close>

definition Py_UNICODE_ISDECIMAL :: "codepoint \<Rightarrow> bool" where
  "Py_UNICODE_ISDECIMAL c = (Py_UNICODE_TODECIMAL c \<noteq> None)"

text \<open>\<^verbatim>\<open>Py_UNICODE_ISSPACE\<close> on the code points from 128 on.\<close>

definition Py_UNICODE_ISSPACE :: "codepoint \<Rightarrow> bool" where
  "Py_UNICODE_ISSPACE c =
     (c \<in> set [0x85, 0xA0, 0x1680, 0x2028, 0x2029, 0x202F, 0x205F, 0x3000]
      \<or> (0x2000 \<le> c \<and> c \<le> 0x200A))"

text \<open>\<^verbatim>\<open>Py_ISSPACE\<close>: the ASCII white space of C.\<close>

definition Py_ISSPACE :: "codepoint \<Rightarrow> bool" where
  "Py_ISSPACE c = (c = 0x20 \<or> (9 \<le> c \<and> c \<le> 13))"

definition is_ascii_digit :: "codepoint \<Rightarrow> bool" where
  "is_ascii_digit c = (0x30 \<le> c \<and> c \<le> 0x39)"

section \<open>\<^verbatim>\<open>int(value)\<close>\<close>

text \<open>
  \<^verbatim>\<open>int\<close> of a \<^verbatim>\<open>str\<close> first rewrites the string to ASCII
  (\<^verbatim>\<open>_PyUnicode_TransformDecimalAndSpaceToASCII\<close>): an ASCII string is kept as it is; otherwise
  every code point below 127 is kept, a Unicode space becomes a blank, a Unicode decimal digit
  becomes its ASCII digit, and the first other code point becomes \<^verbatim>\<open>?\<close> and ends the string.
\<close>

fun transform_loop :: "pystr \<Rightarrow> pystr" where
  "transform_loop [] = []"
| "transform_loop (ch # s) =
     (if ch < 127 then ch # transform_loop s
      else if Py_UNICODE_ISSPACE ch then 0x20 # transform_loop s
      else (case Py_UNICODE_TODECIMAL ch of
              None \<Rightarrow> [0x3F]
            | Some decimal \<Rightarrow> (0x30 + decimal) # transform_loop s))"

definition TransformDecimalAndSpaceToASCII :: "pystr \<Rightarrow> pystr" where
  "TransformDecimalAndSpaceToASCII s =
     (if list_all (\<lambda>ch. ch < 128) s then s else transform_loop s)"

text \<open>
  The scan of \<^verbatim>\<open>long_from_string_base\<close>: it reads digits and underscores, remembers the
  previous character, and fails on a doubled or a trailing underscore. It returns the text
  read and the text left.
\<close>

fun scan_digits :: "codepoint \<Rightarrow> pystr \<Rightarrow> pystr \<Rightarrow> (pystr \<times> pystr) option" where
  "scan_digits prev seen [] = (if prev = 0x5F then None else Some (seen, []))"
| "scan_digits prev seen (c # s) =
     (if c = 0x5F then (if prev = 0x5F then None else scan_digits c (seen @ [c]) s)
      else if is_ascii_digit c then scan_digits c (seen @ [c]) s
      else if prev = 0x5F then None
      else Some (seen, c # s))"

text \<open>
  The default of \<^verbatim>\<open>sys.get_int_max_str_digits()\<close>: a longer decimal literal raises
  \<^verbatim>\<open>ValueError\<close>.
\<close>

definition max_str_digits :: nat where
  "max_str_digits = 4300"

text \<open>
  \<^verbatim>\<open>long_from_string_base\<close> in base 10: no leading underscore, the scan, a non-empty
  text, only white space after it, and the limit on the number of digits. The result is the
  list of digits read.
\<close>

definition long_from_string_base :: "pystr \<Rightarrow> py_error + pystr" where
  "long_from_string_base str =
     (case str of
        [] \<Rightarrow> Inl ValueError
      | c # _ \<Rightarrow>
          if c = 0x5F then Inl ValueError
          else (case scan_digits 0 [] str of
                  None \<Rightarrow> Inl ValueError
                | Some (body, rest) \<Rightarrow>
                    if body = [] then Inl ValueError
                    else if dropWhile Py_ISSPACE rest \<noteq> [] then Inl ValueError
                    else if length (filter is_ascii_digit body) > max_str_digits
                    then Inl ValueError
                    else Inr (filter is_ascii_digit body)))"

text \<open>
  \<^verbatim>\<open>PyLong_FromString\<close> in base 10: leading white space, an optional sign, then the digits.
\<close>

definition PyLong_FromString :: "pystr \<Rightarrow> py_error + int" where
  "PyLong_FromString buffer =
     (let str = dropWhile Py_ISSPACE buffer;
          sign = (case str of [] \<Rightarrow> 1 | c # _ \<Rightarrow> if c = 0x2D then - 1 else (1::int));
          str = (case str of
                   [] \<Rightarrow> []
                 | c # r \<Rightarrow> if c = 0x2B \<or> c = 0x2D then r else c # r)
      in case long_from_string_base str of
           Inl e \<Rightarrow> Inl e
         | Inr digits \<Rightarrow>
             Inr (sign * foldl (\<lambda>a d. 10 * a + int (d - 0x30)) 0 digits))"

definition py_int :: "pystr \<Rightarrow> py_error + int" where
  "py_int v = PyLong_FromString (TransformDecimalAndSpaceToASCII v)"

section \<open>The regular expressions of the validator\<close>

text \<open>
  \<^verbatim>\<open>re.match(r"^\d+x\d+$", value)\<close>. Each \<^verbatim>\<open>\d+\<close> is greedy, and giving a digit back
  never helps: what follows a shorter run is a digit, which is neither \<^verbatim>\<open>x\<close> nor the end.
  So the match is decided by the longest runs. \<^verbatim>\<open>$\<close> (without \<^verbatim>\<open>re.MULTILINE\<close>) holds
  at the end of the string and just before a newline that ends the string.
\<close>

definition match_size :: "pystr \<Rightarrow> bool" where
  "match_size v =
     (let width = takeWhile Py_UNICODE_ISDECIMAL v;
          r1 = dropWhile Py_UNICODE_ISDECIMAL v
      in width \<noteq> [] \<and>
         (case r1 of
            [] \<Rightarrow> False
          | c # r2 \<Rightarrow>
              c = 0x78 \<and>
              (let height = takeWhile Py_UNICODE_ISDECIMAL r2;
                   r3 = dropWhile Py_UNICODE_ISDECIMAL r2
               in height \<noteq> [] \<and> (r3 = [] \<or> r3 = [0x0A]))))"

text \<open>The class \<^verbatim>\<open>[a-zA-Z0-9_]\<close>.\<close>

definition is_name_char :: "codepoint \<Rightarrow> bool" where
  "is_name_char c =
     ((0x61 \<le> c \<and> c \<le> 0x7A) \<or> (0x41 \<le> c \<and> c \<le> 0x5A) \<or> (0x30 \<le> c \<and> c \<le> 0x39)
      \<or> c = 0x5F)"

text \<open>The class \<^verbatim>\<open>[^&]\<close>; a negated class also takes a newline.\<close>

definition is_value_char :: "codepoint \<Rightarrow> bool" where
  "is_value_char c = (c \<noteq> 0x26)"

text \<open>
  One attempt of \<^verbatim>\<open>([a-zA-Z0-9_]+)=([^&]*)\<close> at the head of the text: the longest run of
  name characters must be non-empty and be followed by \<^verbatim>\<open>=\<close> (a shorter run is followed
  by a name character, so backtracking finds nothing else); the value is the longest run
  without \<^verbatim>\<open>&\<close>. The result is group 1, group 2 and the text after the match.
\<close>

definition match_pair :: "pystr \<Rightarrow> (pystr \<times> pystr \<times> pystr) option" where
  "match_pair s =
     (let name = takeWhile is_name_char s;
          r = dropWhile is_name_char s
      in if name = [] then None
         else (case r of
                 [] \<Rightarrow> None
               | c # r' \<Rightarrow>
                   if c = 0x3D
                   then Some (name, takeWhile is_value_char r', dropWhile is_value_char r')
                   else None))"

text \<open>
  \<^verbatim>\<open>re.finditer\<close>: the matches from left to right, none overlapping; where no match starts
  the scan moves on by one code point.
\<close>

function finditer :: "pystr \<Rightarrow> (pystr \<times> pystr) list" where
  "finditer [] = []"
| "finditer (c # s) =
     (case match_pair (c # s) of
        None \<Rightarrow> finditer s
      | Some (param_name, param_value, rest) \<Rightarrow> (param_name, param_value) # finditer rest)"
  by pat_completeness auto
termination
proof (relation "measure length")
  show "wf (measure length)" by simp
next
  fix c :: codepoint and s :: pystr
  show "(s, c # s) \<in> measure length" by simp
next
  fix c :: codepoint and s x2 x y xa ya
  assume m: "match_pair (c # s) = Some x2" and "(x, y) = x2" and "(xa, ya) = y"
  then have m': "match_pair (c # s) = Some (x, xa, ya)" by simp
  obtain d r' where r: "dropWhile is_name_char (c # s) = d # r'"
    and rest: "ya = dropWhile is_value_char r'"
    using m' by (auto simp: match_pair_def Let_def split: if_splits list.splits)
  have "length ya \<le> length r'"
    unfolding rest by (rule length_dropWhile_le)
  moreover have "length (d # r') \<le> length (c # s)"
    unfolding r [symmetric] by (rule length_dropWhile_le)
  ultimately show "(ya, c # s) \<in> measure length" by simp
qed

section \<open>\<^verbatim>\<open>urllib.parse.unquote\<close>\<close>

definition hex_value :: "nat \<Rightarrow> nat option" where
  "hex_value c =
     (if 0x30 \<le> c \<and> c \<le> 0x39 then Some (c - 0x30)
      else if 0x41 \<le> c \<and> c \<le> 0x46 then Some (c - 0x41 + 10)
      else if 0x61 \<le> c \<and> c \<le> 0x66 then Some (c - 0x61 + 10)
      else None)"

text \<open>
  One item after a \<^verbatim>\<open>%\<close>: two hexadecimal digits give a byte; anything else is the
  \<^verbatim>\<open>KeyError\<close> branch, which puts the \<^verbatim>\<open>%\<close> back.
\<close>

definition unquote_item :: "pybytes \<Rightarrow> pybytes" where
  "unquote_item item =
     (case item of
        a # b # tail \<Rightarrow>
          (case hex_value a of
             None \<Rightarrow> 0x25 # item
           | Some x \<Rightarrow>
               (case hex_value b of
                  None \<Rightarrow> 0x25 # item
                | Some y \<Rightarrow> (16 * x + y) # tail))
      | _ \<Rightarrow> 0x25 # item)"

definition unquote_to_bytes :: "pystr \<Rightarrow> pybytes" where
  "unquote_to_bytes string =
     (if string = [] then []
      else (case split_on 0x25 string of
              [] \<Rightarrow> string
            | [b] \<Rightarrow> string
            | b # bits \<Rightarrow> b @ concat (map unquote_item bits)))"

definition is_continuation :: "nat \<Rightarrow> bool" where
  "is_continuation c = (0x80 \<le> c \<and> c \<le> 0xBF)"

text \<open>
  \<^verbatim>\<open>bytes.decode('utf-8', 'replace')\<close>: a well-formed sequence gives its code point;
  an invalid start byte, a sequence broken at its second, third or fourth byte, and a sequence
  cut off by the end of the input each give one U+FFFD, and decoding goes on after the bytes
  that the error covers.
\<close>

fun decode_utf8 :: "pybytes \<Rightarrow> pystr" where
  "decode_utf8 [] = []"
| "decode_utf8 (ch # s) =
     (if ch < 0x80 then ch # decode_utf8 s
      else if ch < 0xC2 then 0xFFFD # decode_utf8 s
      else if ch < 0xE0 then
        (case s of
           [] \<Rightarrow> [0xFFFD]
         | ch2 # s2 \<Rightarrow>
             if is_continuation ch2
             then ((ch - 0xC0) * 64 + (ch2 - 0x80)) # decode_utf8 s2
             else 0xFFFD # decode_utf8 s)
      else if ch < 0xF0 then
        (case s of
           [] \<Rightarrow> [0xFFFD]
         | ch2 # s2 \<Rightarrow>
             if \<not> is_continuation ch2 then 0xFFFD # decode_utf8 s
             else if (if ch2 < 0xA0 then ch = 0xE0 else ch = 0xED) then 0xFFFD # decode_utf8 s
             else (case s2 of
                     [] \<Rightarrow> [0xFFFD]
                   | ch3 # s3 \<Rightarrow>
                       if is_continuation ch3
                       then ((ch - 0xE0) * 4096 + (ch2 - 0x80) * 64 + (ch3 - 0x80))
                              # decode_utf8 s3
                       else 0xFFFD # decode_utf8 s2))
      else if ch < 0xF5 then
        (case s of
           [] \<Rightarrow> [0xFFFD]
         | ch2 # s2 \<Rightarrow>
             if \<not> is_continuation ch2 then 0xFFFD # decode_utf8 s
             else if (if ch2 < 0x90 then ch = 0xF0 else ch = 0xF4) then 0xFFFD # decode_utf8 s
             else (case s2 of
                     [] \<Rightarrow> [0xFFFD]
                   | ch3 # s3 \<Rightarrow>
                       if \<not> is_continuation ch3 then 0xFFFD # decode_utf8 s2
                       else (case s3 of
                               [] \<Rightarrow> [0xFFFD]
                             | ch4 # s4 \<Rightarrow>
                                 if is_continuation ch4
                                 then ((ch - 0xF0) * 262144 + (ch2 - 0x80) * 4096
                                       + (ch3 - 0x80) * 64 + (ch4 - 0x80)) # decode_utf8 s4
                                 else 0xFFFD # decode_utf8 s3)))
      else 0xFFFD # decode_utf8 s)"

text \<open>
  \<^verbatim>\<open>unquote\<close> leaves a string without \<^verbatim>\<open>%\<close> alone; otherwise every longest run of ASCII
  code points is unquoted to bytes and decoded, and the code points between the runs are kept.
\<close>

definition is_ascii :: "codepoint \<Rightarrow> bool" where
  "is_ascii c = (c < 0x80)"

function unquote_runs :: "pystr \<Rightarrow> pystr" where
  "unquote_runs [] = []"
| "unquote_runs (c # s) =
     (if is_ascii c
      then decode_utf8 (unquote_to_bytes (takeWhile is_ascii (c # s)))
             @ unquote_runs (dropWhile is_ascii s)
      else c # unquote_runs s)"
  by pat_completeness auto
termination
  by (relation "measure length") (auto simp: less_Suc_eq_le length_dropWhile_le)

definition unquote :: "pystr \<Rightarrow> pystr" where
  "unquote string = (if 0x25 \<in> set string then unquote_runs string else string)"

section \<open>\<^verbatim>\<open>urllib.parse.urlparse\<close>\<close>

text \<open>
  Two checks of \<^verbatim>\<open>urlsplit\<close> go through large tables of the standard library: whether a
  bracketed host is an IPv6 address (\<^verbatim>\<open>ipaddress.ip_address\<close>), and the NFKC normal form of
  a network location that is not ASCII (\<^verbatim>\<open>unicodedata.normalize\<close>). The model takes both
  as parameters, so every statement below holds whatever these tables say.
\<close>

record pylib =
  is_ipv6_address :: "pystr \<Rightarrow> bool"
  normalize_NFKC :: "pystr \<Rightarrow> pystr"

record SplitResult =
  scheme :: pystr
  netloc :: pystr
  path :: pystr
  query :: pystr
  fragment :: pystr

definition is_scheme_char :: "codepoint \<Rightarrow> bool" where
  "is_scheme_char c =
     ((0x61 \<le> c \<and> c \<le> 0x7A) \<or> (0x41 \<le> c \<and> c \<le> 0x5A) \<or> (0x30 \<le> c \<and> c \<le> 0x39)
      \<or> c = 0x2B \<or> c = 0x2D \<or> c = 0x2E)"

definition is_ascii_alpha :: "codepoint \<Rightarrow> bool" where
  "is_ascii_alpha c = ((0x61 \<le> c \<and> c \<le> 0x7A) \<or> (0x41 \<le> c \<and> c \<le> 0x5A))"

definition lower :: "pystr \<Rightarrow> pystr" where
  "lower s = map (\<lambda>c. if 0x41 \<le> c \<and> c \<le> 0x5A then c + 0x20 else c) s"

text \<open>
  The scheme: with \<^verbatim>\<open>i = url.find(':')\<close>, if \<^verbatim>\<open>i > 0\<close>, the first code point is an ASCII
  letter and \<^verbatim>\<open>url[:i]\<close> has scheme characters only, the scheme is \<^verbatim>\<open>url[:i].lower()\<close> and
  the url goes on after the colon; otherwise the scheme is empty.
\<close>

definition split_scheme :: "pystr \<Rightarrow> pystr \<times> pystr" where
  "split_scheme url =
     (if 0x3A \<in> set url
      then (case takeWhile (\<lambda>c. c \<noteq> 0x3A) url of
              [] \<Rightarrow> ([], url)
            | c0 # cs \<Rightarrow>
                if is_ascii c0 \<and> is_ascii_alpha c0 \<and> list_all is_scheme_char (c0 # cs)
                then (lower (c0 # cs), drop 1 (dropWhile (\<lambda>c. c \<noteq> 0x3A) url))
                else ([], url))
      else ([], url))"

text \<open>\<^verbatim>\<open>re.match(r"\Av[a-fA-F0-9]+\..+\Z", hostname)\<close>\<close>

definition is_hex_char :: "codepoint \<Rightarrow> bool" where
  "is_hex_char c =
     ((0x61 \<le> c \<and> c \<le> 0x66) \<or> (0x41 \<le> c \<and> c \<le> 0x46) \<or> (0x30 \<le> c \<and> c \<le> 0x39))"

definition match_ipvfuture :: "pystr \<Rightarrow> bool" where
  "match_ipvfuture hostname =
     (case hostname of
        [] \<Rightarrow> False
      | v # r \<Rightarrow>
          v = 0x76 \<and> takeWhile is_hex_char r \<noteq> [] \<and>
          (case dropWhile is_hex_char r of
             [] \<Rightarrow> False
           | dot # tail \<Rightarrow> dot = 0x2E \<and> tail \<noteq> [] \<and> list_all (\<lambda>c. c \<noteq> 0x0A) tail))"

definition check_bracketed_host :: "pylib \<Rightarrow> pystr \<Rightarrow> py_error + unit" where
  "check_bracketed_host L hostname =
     (if take 1 hostname = [0x76]
      then (if match_ipvfuture hostname then Inr () else Inl ValueError)
      else (if is_ipv6_address L hostname then Inr () else Inl ValueError))"

definition checknetloc :: "pylib \<Rightarrow> pystr \<Rightarrow> py_error + unit" where
  "checknetloc L loc =
     (if loc = [] \<or> list_all is_ascii loc then Inr ()
      else (let n = filter (\<lambda>c. c \<noteq> 0x40 \<and> c \<noteq> 0x3A \<and> c \<noteq> 0x23 \<and> c \<noteq> 0x3F) loc;
                netloc2 = normalize_NFKC L n
            in if n = netloc2 then Inr ()
               else if list_ex (\<lambda>c. c \<in> set netloc2) [0x2F, 0x3F, 0x23, 0x40, 0x3A]
               then Inl ValueError
               else Inr ()))"

definition urlsplit :: "pylib \<Rightarrow> pystr \<Rightarrow> py_error + SplitResult" where
  "urlsplit L url0 =
     (let url = dropWhile (\<lambda>c. c \<le> 0x20) url0;
          url = filter (\<lambda>c. c \<noteq> 0x09 \<and> c \<noteq> 0x0D \<and> c \<noteq> 0x0A) url;
          (scheme, url) = split_scheme url;
          has_netloc = (take 2 url = [0x2F, 0x2F]);
          netloc = (if has_netloc
                    then takeWhile (\<lambda>c. c \<noteq> 0x2F \<and> c \<noteq> 0x3F \<and> c \<noteq> 0x23) (drop 2 url)
                    else []);
          url = (if has_netloc
                 then dropWhile (\<lambda>c. c \<noteq> 0x2F \<and> c \<noteq> 0x3F \<and> c \<noteq> 0x23) (drop 2 url)
                 else url);
          fragment = (if 0x23 \<in> set url then drop 1 (dropWhile (\<lambda>c. c \<noteq> 0x23) url) else []);
          url = takeWhile (\<lambda>c. c \<noteq> 0x23) url;
          query = (if 0x3F \<in> set url then drop 1 (dropWhile (\<lambda>c. c \<noteq> 0x3F) url) else []);
          url = takeWhile (\<lambda>c. c \<noteq> 0x3F) url
      in if (0x5B \<in> set netloc \<and> 0x5D \<notin> set netloc) \<or> (0x5D \<in> set netloc \<and> 0x5B \<notin> set netloc)
         then Inl ValueError
         else (case (if 0x5B \<in> set netloc \<and> 0x5D \<in> set netloc
                     then check_bracketed_host L
                            (takeWhile (\<lambda>c. c \<noteq> 0x5D) (drop 1 (dropWhile (\<lambda>c. c \<noteq> 0x5B) netloc)))
                     else Inr ()) of
                 Inl e \<Rightarrow> Inl e
               | Inr _ \<Rightarrow>
                   (case checknetloc L netloc of
                      Inl e \<Rightarrow> Inl e
                    | Inr _ \<Rightarrow>
                        Inr \<lparr>scheme = scheme, netloc = netloc, path = url, query = query,
                             fragment = fragment\<rparr>)))"

text \<open>
  \<^verbatim>\<open>urlparse\<close> is \<^verbatim>\<open>urlsplit\<close> followed by the split of the parameters off the path,
  which cannot fail and leaves scheme and network location as they are; \<open>validate_url\<close> reads
  nothing else.
\<close>

definition validate_url :: "pylib \<Rightarrow> pystr \<Rightarrow> bool" where
  "validate_url L url_string =
     (case urlsplit L url_string of
        Inl ValueError \<Rightarrow> False
      | Inr result \<Rightarrow>
          (scheme result = ustr ''http'' \<or> scheme result = ustr ''https'') \<and> netloc result \<noteq> [])"

section \<open>The rules\<close>

text \<open>
  The rules of one parameter: the dictionary \<^verbatim>\<open>{"type": ...}\<close>, with the allowed values
  when the type is \<^verbatim>\<open>"enum"\<close>.
\<close>

datatype rule = T_int | T_url | T_enum "pystr list" | T_size | T_bool | T_str

record ctx_rules =
  required :: "(pystr \<times> rule) list"
  programmatic_required :: "(pystr \<times> rule) list"
  programmatic_recommended :: "(pystr \<times> rule) list"

definition web_rules :: ctx_rules where
  "web_rules = \<lparr>
     required =
       [(ustr ''correlator'', T_int),
        (ustr ''description_url'', T_url),
        (ustr ''env'', T_enum [ustr ''vp'', ustr ''instream'', ustr ''outstream'']),
        (ustr ''gdfp_req'', T_int),
        (ustr ''iu'', T_str),
        (ustr ''output'', T_enum [ustr ''vast'', ustr ''xml_vast2'', ustr ''xml_vast3'', ustr ''xml_vast4'']),
        (ustr ''sz'', T_size),
        (ustr ''unviewed_position_start'', T_int),
        (ustr ''url'', T_url),
        (ustr ''vpmute'', T_bool)],
     programmatic_required =
       [(ustr ''ott_placement'', T_int),
        (ustr ''plcmt'', T_int),
        (ustr ''vpa'', T_bool)],
     programmatic_recommended =
       [(ustr ''aconp'', T_bool),
        (ustr ''dth'', T_int),
        (ustr ''givn'', T_str),
        (ustr ''hl'', T_str),
        (ustr ''omid_p'', T_str),
        (ustr ''vconp'', T_bool),
        (ustr ''vid_d'', T_int),
        (ustr ''vpos'', T_enum [ustr ''preroll'', ustr ''midroll'', ustr ''postroll'', ustr ''1'', ustr ''2'', ustr ''3'', ustr ''0'']),
        (ustr ''wta'', T_int)]\<rparr>"

definition app_rules :: ctx_rules where
  "app_rules = \<lparr>
     required =
       [(ustr ''correlator'', T_int),
        (ustr ''description_url'', T_url),
        (ustr ''env'', T_enum [ustr ''vp'', ustr ''instream'', ustr ''outstream'']),
        (ustr ''gdfp_req'', T_int),
        (ustr ''iu'', T_str),
        (ustr ''output'', T_enum [ustr ''vast'', ustr ''xml_vast2'', ustr ''xml_vast3'', ustr ''xml_vast4'']),
        (ustr ''sz'', T_size),
        (ustr ''unviewed_position_start'', T_int),
        (ustr ''url'', T_url),
        (ustr ''vpmute'', T_bool)],
     programmatic_required =
       [(ustr ''idtype'', T_int),
        (ustr ''is_lat'', T_bool),
        (ustr ''ott_placement'', T_int),
        (ustr ''plcmt'', T_int),
        (ustr ''rdid'', T_str),
        (ustr ''vpa'', T_bool)],
     programmatic_recommended =
       [(ustr ''aconp'', T_bool),
        (ustr ''an'', T_str),
        (ustr ''dth'', T_int),
        (ustr ''givn'', T_str),
        (ustr ''hl'', T_str),
        (ustr ''msid'', T_str),
        (ustr ''omid_p'', T_str),
        (ustr ''pvid'', T_str),
        (ustr ''sid'', T_str),
        (ustr ''vconp'', T_bool),
        (ustr ''vid_d'', T_int),
        (ustr ''vpos'', T_enum [ustr ''preroll'', ustr ''midroll'', ustr ''postroll'', ustr ''1'', ustr ''2'', ustr ''3'', ustr ''0'']),
        (ustr ''wta'', T_int)]\<rparr>"

definition ctv_rules :: ctx_rules where
  "ctv_rules = \<lparr>
     required =
       [(ustr ''correlator'', T_int),
        (ustr ''env'', T_enum [ustr ''vp'', ustr ''instream'', ustr ''outstream'']),
        (ustr ''gdfp_req'', T_int),
        (ustr ''iu'', T_str),
        (ustr ''output'', T_enum [ustr ''vast'', ustr ''xml_vast2'', ustr ''xml_vast3'', ustr ''xml_vast4'']),
        (ustr ''sz'', T_size),
        (ustr ''url'', T_url)],
     programmatic_required =
       [(ustr ''idtype'', T_int),
        (ustr ''is_lat'', T_bool),
        (ustr ''ott_placement'', T_int),
        (ustr ''plcmt'', T_int),
        (ustr ''rdid'', T_str),
        (ustr ''vpa'', T_bool),
        (ustr ''vpmute'', T_bool)],
     programmatic_recommended =
       [(ustr ''aconp'', T_bool),
        (ustr ''an'', T_str),
        (ustr ''dth'', T_int),
        (ustr ''givn'', T_str),
        (ustr ''hl'', T_str),
        (ustr ''msid'', T_str),
        (ustr ''omid_p'', T_str),
        (ustr ''sid'', T_str),
        (ustr ''vconp'', T_bool),
        (ustr ''vid_d'', T_int),
        (ustr ''vpos'', T_enum [ustr ''preroll'', ustr ''midroll'', ustr ''postroll'', ustr ''1'', ustr ''2'', ustr ''3'', ustr ''0'']),
        (ustr ''wta'', T_int)]\<rparr>"

definition audio_rules :: ctx_rules where
  "audio_rules = \<lparr>
     required =
       [(ustr ''ad_type'', T_str),
        (ustr ''correlator'', T_int),
        (ustr ''env'', T_enum [ustr ''vp'', ustr ''instream'', ustr ''outstream'']),
        (ustr ''gdfp_req'', T_int),
        (ustr ''iu'', T_str),
        (ustr ''output'', T_enum [ustr ''vast'', ustr ''xml_vast2'', ustr ''xml_vast3'', ustr ''xml_vast4'']),
        (ustr ''url'', T_url)],
     programmatic_required =
       [(ustr ''idtype'', T_int),
        (ustr ''is_lat'', T_bool),
        (ustr ''plcmt'', T_int),
        (ustr ''rdid'', T_str),
        (ustr ''vpa'', T_bool),
        (ustr ''vpmute'', T_bool)],
     programmatic_recommended =
       [(ustr ''aconp'', T_bool),
        (ustr ''an'', T_str),
        (ustr ''dth'', T_int),
        (ustr ''givn'', T_str),
        (ustr ''hl'', T_str),
        (ustr ''msid'', T_str),
        (ustr ''omid_p'', T_str),
        (ustr ''sid'', T_str),
        (ustr ''vconp'', T_bool),
        (ustr ''vpos'', T_enum [ustr ''preroll'', ustr ''midroll'', ustr ''postroll'', ustr ''1'', ustr ''2'', ustr ''3'', ustr ''0'']),
        (ustr ''wta'', T_int)]\<rparr>"

definition doh_rules :: ctx_rules where
  "doh_rules = \<lparr>
     required =
       [(ustr ''correlator'', T_int),
        (ustr ''env'', T_enum [ustr ''vp'', ustr ''instream'', ustr ''outstream'']),
        (ustr ''gdfp_req'', T_int),
        (ustr ''iu'', T_str),
        (ustr ''output'', T_enum [ustr ''vast'', ustr ''xml_vast2'', ustr ''xml_vast3'', ustr ''xml_vast4'']),
        (ustr ''sz'', T_size),
        (ustr ''url'', T_url),
        (ustr ''vpmute'', T_bool)],
     programmatic_required =
       [(ustr ''idtype'', T_int),
        (ustr ''is_lat'', T_bool),
        (ustr ''plcmt'', T_int),
        (ustr ''rdid'', T_str),
        (ustr ''sid'', T_str),
        (ustr ''venuetype'', T_int)],
     programmatic_recommended =
       [(ustr ''aconp'', T_bool),
        (ustr ''an'', T_str),
        (ustr ''dth'', T_int),
        (ustr ''givn'', T_str),
        (ustr ''hl'', T_str),
        (ustr ''msid'', T_str),
        (ustr ''omid_p'', T_str)]\<rparr>"
text \<open>\<^verbatim>\<open>self.param_rules\<close>, in the order of the dictionary.\<close>

definition param_rules :: "(pystr \<times> ctx_rules) list" where
  "param_rules =
     [(ustr ''web'', web_rules), (ustr ''app'', app_rules), (ustr ''ctv'', ctv_rules),
      (ustr ''audio'', audio_rules), (ustr ''doh'', doh_rules)]"

section \<open>The validator\<close>

record issue =
  parameter :: pystr
  type :: pystr
  message :: pystr

text \<open>
  \<open>validate_param\<close> appends at most one error; the model returns what it appends.
\<close>

definition validate_param :: "pylib \<Rightarrow> pystr \<Rightarrow> rule \<Rightarrow> pystr \<Rightarrow> issue list" where
  "validate_param L param rules v =
     (if v = [] then
        [\<lparr>parameter = param, type = ustr ''invalid'',
          message = ustr ''Parameter value is empty''\<rparr>]
      else
        (case rules of
           T_int \<Rightarrow>
             (case py_int v of
                Inr _ \<Rightarrow> []
              | Inl ValueError \<Rightarrow>
                  [\<lparr>parameter = param, type = ustr ''invalid'',
                    message = ustr ''Expected integer, got '' @ [0x27] @ v @ [0x27]\<rparr>])
         | T_url \<Rightarrow>
             (if \<not> validate_url L v then
                [\<lparr>parameter = param, type = ustr ''invalid'',
                  message = ustr ''Invalid URL: '' @ [0x27] @ v @ [0x27]\<rparr>]
              else [])
         | T_enum allowed_values \<Rightarrow>
             (if v \<notin> set allowed_values then
                [\<lparr>parameter = param, type = ustr ''invalid'',
                  message = ustr ''Invalid value. Allowed values: ''
                            @ join (ustr '', '') allowed_values\<rparr>]
              else [])
         | T_size \<Rightarrow>
             (if \<not> match_size v then
                [\<lparr>parameter = param, type = ustr ''invalid'',
                  message = ustr ''Expected format WIDTHxHEIGHT (e.g., 640x480)''\<rparr>]
              else [])
         | T_bool \<Rightarrow>
             (if v \<notin> set [ustr ''0'', ustr ''1''] then
                [\<lparr>parameter = param, type = ustr ''invalid'',
                  message = ustr ''Expected 0 or 1, got '' @ [0x27] @ v @ [0x27]\<rparr>]
              else [])
         | T_str \<Rightarrow> []))"

text \<open>
  The dictionary \<^verbatim>\<open>present_params\<close> is an association list in insertion order: a name seen
  again keeps its place and takes the new value.
\<close>

definition parse_params :: "bool \<Rightarrow> pystr \<Rightarrow> (pystr \<times> pystr) list" where
  "parse_params decode_params vast_request =
     fold (\<lambda>(param_name, param_value) present_params.
             AList.update param_name
               (if decode_params then unquote param_value else param_value) present_params)
          (finditer vast_request) []"

text \<open>The inner loop over one dictionary of rules.\<close>

definition check_param ::
  "pylib \<Rightarrow> (pystr \<times> pystr) list \<Rightarrow> pystr \<Rightarrow> bool \<Rightarrow> pystr \<times> rule \<Rightarrow> issue list" where
  "check_param L present_params error_message is_required pr =
     (case map_of present_params (fst pr) of
        None \<Rightarrow>
          (if is_required then
             [\<lparr>parameter = fst pr, type = ustr ''missing'', message = error_message\<rparr>]
           else [])
      | Some v \<Rightarrow> validate_param L (fst pr) (snd pr) v)"

definition check_params ::
  "pylib \<Rightarrow> (pystr \<times> pystr) list \<Rightarrow> (pystr \<times> rule) list \<Rightarrow> pystr \<Rightarrow> bool \<Rightarrow> issue list" where
  "check_params L present_params param_dict error_message is_required =
     concat (map (check_param L present_params error_message is_required) param_dict)"

text \<open>
  The outer loop runs over three dictionaries of the context. The test
  \<^verbatim>\<open>param_dict is rules.get("programmatic_required", {})\<close> compares objects, so each round
  carries the key of its dictionary.
\<close>

datatype tier = Required | Programmatic_required | Programmatic_recommended

fun tier_dict :: "ctx_rules \<Rightarrow> tier \<Rightarrow> (pystr \<times> rule) list" where
  "tier_dict rules Required = required rules"
| "tier_dict rules Programmatic_required = programmatic_required rules"
| "tier_dict rules Programmatic_recommended = programmatic_recommended rules"

definition rounds :: "bool \<Rightarrow> (tier \<times> pystr \<times> bool) list" where
  "rounds is_programmatic =
     [(Required, ustr ''Missing required parameter'', True),
      (Programmatic_required, ustr ''Missing required programmatic parameter'', is_programmatic),
      (Programmatic_recommended, ustr ''Recommended programmatic parameter not found'', False)]"

definition check_round ::
  "pylib \<Rightarrow> (pystr \<times> pystr) list \<Rightarrow> ctx_rules \<Rightarrow> tier \<times> pystr \<times> bool \<Rightarrow> issue list" where
  "check_round L present_params rules rnd =
     (case rnd of (t, error_message, is_required) \<Rightarrow>
        if \<not> is_required \<and> t = Programmatic_required then []
        else check_params L present_params (tier_dict rules t) error_message is_required)"

definition validate_vast_request ::
  "pylib \<Rightarrow> pystr \<Rightarrow> pystr \<Rightarrow> bool \<Rightarrow> bool \<Rightarrow> (pystr \<times> pystr) list \<times> issue list" where
  "validate_vast_request L vast_request implementation_type is_programmatic decode_params =
     (case map_of param_rules implementation_type of
        None \<Rightarrow>
          ([],
           [\<lparr>parameter = ustr ''implementation_type'', type = ustr ''invalid'',
             message = ustr ''Invalid implementation type: '' @ [0x27] @ implementation_type
                       @ [0x27] @ ustr ''. Allowed types are: ''
                       @ join (ustr '', '') (map fst param_rules)\<rparr>])
      | Some rules \<Rightarrow>
          (let present_params = parse_params decode_params vast_request;
               errors = concat (map (check_round L present_params rules)
                                    (rounds is_programmatic));
               warnings = []
           in (present_params, errors @ warnings)))"

text \<open>
  \<open>main\<close> sorts the issues: the errors have type \<^verbatim>\<open>invalid\<close> or \<^verbatim>\<open>missing\<close>, the warnings
  are the rest, and the request is valid when there is no error.
\<close>

definition main_errors :: "issue list \<Rightarrow> issue list" where
  "main_errors issues = filter (\<lambda>i. type i \<in> set [ustr ''invalid'', ustr ''missing'']) issues"

definition main_warnings :: "issue list \<Rightarrow> issue list" where
  "main_warnings issues = filter (\<lambda>i. type i \<notin> set [ustr ''invalid'', ustr ''missing'']) issues"

definition main_valid :: "issue list \<Rightarrow> bool" where
  "main_valid issues = (main_errors issues = [])"

text \<open>The issues that name one parameter, and the names a context declares.\<close>

definition issues_for :: "pystr \<Rightarrow> issue list \<Rightarrow> issue list" where
  "issues_for p issues = filter (\<lambda>i. parameter i = p) issues"

definition declared :: "ctx_rules \<Rightarrow> pystr list" where
  "declared rules =
     map fst (required rules) @ map fst (programmatic_required rules)
     @ map fst (programmatic_recommended rules)"

text \<open>
  The closed evaluations below fix the two library parameters. Every request evaluated there
  has ASCII network locations without brackets, for which \<open>urlsplit\<close> consults neither
  parameter.
\<close>

definition plain_lib :: pylib where
  "plain_lib = \<lparr>is_ipv6_address = (\<lambda>hostname. False), normalize_NFKC = (\<lambda>n. n)\<rparr>"

section \<open>Literals\<close>

lemma ustr_eq_iff [simp]: "ustr a = ustr b \<longleftrightarrow> a = b"
proof -
  have "inj (of_char :: char \<Rightarrow> nat)"
    by (rule injI) simp
  then show ?thesis
    unfolding ustr_def by (rule inj_map_eq_map)
qed

lemma ustr_Nil [simp]: "ustr [] = []"
  by (simp add: ustr_def)

lemma ustr_eq_Nil [simp]: "ustr a = [] \<longleftrightarrow> a = []" "[] = ustr a \<longleftrightarrow> a = []"
  by (auto simp: ustr_def)

lemma ustr_append: "ustr (a @ b) = ustr a @ ustr b"
  by (simp add: ustr_def)

section \<open>An unknown implementation type\<close>

lemma known_context_iff:
  "map_of param_rules c = None \<longleftrightarrow>
   c \<notin> set [ustr ''web'', ustr ''app'', ustr ''ctv'', ustr ''audio'', ustr ''doh'']"
  by (simp add: param_rules_def)

lemma allowed_types_text:
  "join (ustr '', '') (map fst param_rules) = ustr ''web, app, ctv, audio, doh''"
  by (simp add: param_rules_def ustr_def)

text \<open>
  C6: when the implementation type is none of web, app, ctv, audio and doh, the validator
  returns no present parameter and exactly one issue: type \<^verbatim>\<open>invalid\<close>, parameter
  \<^verbatim>\<open>implementation_type\<close>, with a message that lists the allowed types. The result does
  not depend on the request, which is not parsed.
\<close>

theorem unknown_implementation_type:
  assumes "implementation_type \<notin>
             set [ustr ''web'', ustr ''app'', ustr ''ctv'', ustr ''audio'', ustr ''doh'']"
  shows "validate_vast_request L vast_request implementation_type is_programmatic decode_params =
           ([],
            [\<lparr>parameter = ustr ''implementation_type'', type = ustr ''invalid'',
              message = ustr ''Invalid implementation type: '' @ [0x27] @ implementation_type
                        @ [0x27] @ ustr ''. Allowed types are: web, app, ctv, audio, doh''\<rparr>])"
proof -
  have "map_of param_rules implementation_type = None"
    using assms known_context_iff [of implementation_type] by blast
  then show ?thesis
    by (simp add: validate_vast_request_def allowed_types_text ustr_append [symmetric])
qed

theorem unknown_implementation_type_witness:
  "ustr ''bogus'' \<notin> set [ustr ''web'', ustr ''app'', ustr ''ctv'', ustr ''audio'', ustr ''doh'']
   \<and> validate_vast_request plain_lib (ustr ''correlator=123'') (ustr ''bogus'') False False =
       ([],
        [\<lparr>parameter = ustr ''implementation_type'', type = ustr ''invalid'',
          message = ustr ''Invalid implementation type: '' @ [0x27] @ ustr ''bogus''
                    @ [0x27] @ ustr ''. Allowed types are: web, app, ctv, audio, doh''\<rparr>])"
proof -
  have h: "ustr ''bogus'' \<notin>
             set [ustr ''web'', ustr ''app'', ustr ''ctv'', ustr ''audio'', ustr ''doh'']"
    by simp
  show ?thesis
    using h unknown_implementation_type [OF h, of plain_lib "ustr ''correlator=123''" False False]
    by simp
qed

section \<open>What one round of the loop returns\<close>

lemma validate_param_parameter:
  "i \<in> set (validate_param L p r v) \<Longrightarrow> parameter i = p"
  by (auto simp: validate_param_def split: if_splits rule.splits sum.splits py_error.splits)

lemma validate_param_type:
  "i \<in> set (validate_param L p r v) \<Longrightarrow> type i = ustr ''invalid''"
  by (auto simp: validate_param_def split: if_splits rule.splits sum.splits py_error.splits)

lemma validate_param_empty:
  "validate_param L p r [] =
     [\<lparr>parameter = p, type = ustr ''invalid'', message = ustr ''Parameter value is empty''\<rparr>]"
  by (simp add: validate_param_def)

lemma check_param_parameter:
  "i \<in> set (check_param L pres msg req pr) \<Longrightarrow> parameter i = fst pr"
  by (auto simp: check_param_def split: option.splits if_splits dest: validate_param_parameter)

lemma check_param_type:
  "i \<in> set (check_param L pres msg req pr) \<Longrightarrow>
   type i = ustr ''invalid'' \<or> type i = ustr ''missing''"
  by (auto simp: check_param_def split: option.splits if_splits dest: validate_param_type)

lemma check_params_parameter:
  "i \<in> set (check_params L pres d msg req) \<Longrightarrow> parameter i \<in> fst ` set d"
  by (auto simp: check_params_def dest: check_param_parameter)

lemma check_params_type:
  "i \<in> set (check_params L pres d msg req) \<Longrightarrow>
   type i = ustr ''invalid'' \<or> type i = ustr ''missing''"
  by (auto simp: check_params_def dest: check_param_type)

lemma issues_for_append [simp]:
  "issues_for p (xs @ ys) = issues_for p xs @ issues_for p ys"
  by (simp add: issues_for_def)

lemma issues_for_Nil [simp]: "issues_for p [] = []"
  by (simp add: issues_for_def)

lemma issues_for_other:
  assumes "\<And>i. i \<in> set xs \<Longrightarrow> parameter i \<noteq> p"
  shows "issues_for p xs = []"
  using assms by (auto simp: issues_for_def filter_empty_conv)

lemma issues_for_same:
  assumes "\<And>i. i \<in> set xs \<Longrightarrow> parameter i = p"
  shows "issues_for p xs = xs"
  using assms by (auto simp: issues_for_def filter_id_conv)

lemma issues_for_check_params_other:
  assumes "p \<notin> fst ` set d"
  shows "issues_for p (check_params L pres d msg req) = []"
proof (rule issues_for_other)
  fix i assume "i \<in> set (check_params L pres d msg req)"
  then have "parameter i \<in> fst ` set d" by (rule check_params_parameter)
  with assms show "parameter i \<noteq> p" by auto
qed

lemma issues_for_check_params_declared:
  assumes "distinct (map fst d)" and "(p, r) \<in> set d"
  shows "issues_for p (check_params L pres d msg req) = check_param L pres msg req (p, r)"
  using assms
proof (induction d)
  case Nil
  then show ?case by simp
next
  case (Cons a d)
  have split: "check_params L pres (a # d) msg req =
                 check_param L pres msg req a @ check_params L pres d msg req"
    by (simp add: check_params_def)
  show ?case
  proof (cases "a = (p, r)")
    case True
    then have "p \<notin> fst ` set d" using Cons.prems(1) by auto
    then have "issues_for p (check_params L pres d msg req) = []"
      by (rule issues_for_check_params_other)
    moreover have "issues_for p (check_param L pres msg req (p, r)) =
                     check_param L pres msg req (p, r)"
      by (rule issues_for_same) (auto dest: check_param_parameter)
    ultimately show ?thesis using True split by simp
  next
    case False
    then have in_d: "(p, r) \<in> set d" using Cons.prems(2) by auto
    then have "p \<in> fst ` set d" by force
    then have "fst a \<noteq> p" using Cons.prems(1) by auto
    then have "issues_for p (check_param L pres msg req a) = []"
      by (intro issues_for_other) (auto dest: check_param_parameter)
    moreover have "issues_for p (check_params L pres d msg req) =
                     check_param L pres msg req (p, r)"
      using Cons.IH Cons.prems(1) in_d by simp
    ultimately show ?thesis using split by simp
  qed
qed

section \<open>What the validator returns for a known implementation type\<close>

lemma validate_known:
  assumes "map_of param_rules c = Some rules"
  shows "validate_vast_request L raw c prog dec =
           (parse_params dec raw,
            check_params L (parse_params dec raw) (required rules)
              (ustr ''Missing required parameter'') True
            @ (if prog
               then check_params L (parse_params dec raw) (programmatic_required rules)
                      (ustr ''Missing required programmatic parameter'') True
               else [])
            @ check_params L (parse_params dec raw) (programmatic_recommended rules)
                (ustr ''Recommended programmatic parameter not found'') False)"
  using assms
  by (simp add: validate_vast_request_def rounds_def check_round_def Let_def)

lemma known_rules:
  assumes "map_of param_rules c = Some rules"
  shows "rules = web_rules \<or> rules = app_rules \<or> rules = ctv_rules \<or> rules = audio_rules
         \<or> rules = doh_rules"
  using assms by (auto simp: param_rules_def split: if_splits)

lemma declared_web: "distinct (declared web_rules)"
  by (simp add: declared_def web_rules_def)

lemma declared_app: "distinct (declared app_rules)"
  by (simp add: declared_def app_rules_def)

lemma declared_ctv: "distinct (declared ctv_rules)"
  by (simp add: declared_def ctv_rules_def)

lemma declared_audio: "distinct (declared audio_rules)"
  by (simp add: declared_def audio_rules_def)

lemma declared_doh: "distinct (declared doh_rules)"
  by (simp add: declared_def doh_rules_def)

lemma declared_distinct:
  assumes "map_of param_rules c = Some rules"
  shows "distinct (declared rules)"
  using known_rules [OF assms] declared_web declared_app declared_ctv declared_audio declared_doh
  by auto

lemma tiers_distinct:
  assumes "map_of param_rules c = Some rules"
  shows "distinct (map fst (required rules))"
    and "distinct (map fst (programmatic_required rules))"
    and "distinct (map fst (programmatic_recommended rules))"
    and "fst ` set (required rules) \<inter> fst ` set (programmatic_required rules) = {}"
    and "fst ` set (required rules) \<inter> fst ` set (programmatic_recommended rules) = {}"
    and "fst ` set (programmatic_required rules) \<inter> fst ` set (programmatic_recommended rules) = {}"
  using declared_distinct [OF assms] by (auto simp: declared_def)

lemma issues_for_validate:
  assumes "map_of param_rules c = Some rules"
  shows "issues_for p (snd (validate_vast_request L raw c prog dec)) =
           issues_for p (check_params L (parse_params dec raw) (required rules)
              (ustr ''Missing required parameter'') True)
           @ (if prog
              then issues_for p (check_params L (parse_params dec raw)
                     (programmatic_required rules)
                     (ustr ''Missing required programmatic parameter'') True)
              else [])
           @ issues_for p (check_params L (parse_params dec raw)
               (programmatic_recommended rules)
               (ustr ''Recommended programmatic parameter not found'') False)"
  by (simp add: validate_known [OF assms])

lemma present_validate:
  assumes "map_of param_rules c = Some rules"
  shows "fst (validate_vast_request L raw c prog dec) = parse_params dec raw"
  by (simp add: validate_known [OF assms])

lemma skipped_round_no_issue:
  assumes known: "map_of param_rules c = Some rules"
    and p: "p \<in> fst ` set (programmatic_required rules)"
  shows "issues_for p (snd (validate_vast_request L raw c False dec)) = []"
proof -
  have "p \<notin> fst ` set (required rules)" and "p \<notin> fst ` set (programmatic_recommended rules)"
    using tiers_distinct(4,6) [OF known] p by auto
  then show ?thesis
    by (simp add: issues_for_validate [OF known] issues_for_check_params_other)
qed

lemma checked_round_issues:
  assumes known: "map_of param_rules c = Some rules"
    and p: "(p, r) \<in> set (required rules) \<union> set (programmatic_recommended rules)
              \<union> (if prog then set (programmatic_required rules) else {})"
    and v: "map_of (parse_params dec raw) p = Some v"
  shows "issues_for p (snd (validate_vast_request L raw c prog dec)) = validate_param L p r v"
proof -
  let ?pres = "parse_params dec raw"
  have one: "check_param L ?pres msg req (p, r) = validate_param L p r v" for msg req
    using v by (simp add: check_param_def)
  consider (req) "(p, r) \<in> set (required rules)"
    | (rec) "(p, r) \<in> set (programmatic_recommended rules)"
    | (prg) "prog" "(p, r) \<in> set (programmatic_required rules)"
    using p by (auto split: if_splits)
  then show ?thesis
  proof cases
    case req
    then have "p \<in> fst ` set (required rules)" by force
    then have "p \<notin> fst ` set (programmatic_required rules)"
      and "p \<notin> fst ` set (programmatic_recommended rules)"
      using tiers_distinct(4,5) [OF known] by auto
    then show ?thesis
      using issues_for_check_params_declared [OF tiers_distinct(1) [OF known] req]
      by (simp add: issues_for_validate [OF known] issues_for_check_params_other one)
  next
    case rec
    then have "p \<in> fst ` set (programmatic_recommended rules)" by force
    then have "p \<notin> fst ` set (required rules)"
      and "p \<notin> fst ` set (programmatic_required rules)"
      using tiers_distinct(5,6) [OF known] by auto
    then show ?thesis
      using issues_for_check_params_declared [OF tiers_distinct(3) [OF known] rec]
      by (simp add: issues_for_validate [OF known] issues_for_check_params_other one)
  next
    case prg
    then have "p \<in> fst ` set (programmatic_required rules)" by force
    then have "p \<notin> fst ` set (required rules)"
      and "p \<notin> fst ` set (programmatic_recommended rules)"
      using tiers_distinct(4,6) [OF known] by auto
    then show ?thesis
      using issues_for_check_params_declared [OF tiers_distinct(2) [OF known] prg(2)] prg(1)
      by (simp add: issues_for_validate [OF known] issues_for_check_params_other one)
  qed
qed

lemma recommended_absent:
  assumes known: "map_of param_rules c = Some rules"
    and p: "p \<in> fst ` set (programmatic_recommended rules)"
    and absent: "map_of (parse_params dec raw) p = None"
  shows "issues_for p (snd (validate_vast_request L raw c prog dec)) = []"
proof -
  obtain r where r: "(p, r) \<in> set (programmatic_recommended rules)"
    using p by auto
  have "p \<notin> fst ` set (required rules)" and "p \<notin> fst ` set (programmatic_required rules)"
    using tiers_distinct(5,6) [OF known] p by auto
  moreover have "check_param L (parse_params dec raw) msg False (p, r) = []" for msg
    using absent by (simp add: check_param_def)
  ultimately show ?thesis
    using issues_for_check_params_declared [OF tiers_distinct(3) [OF known] r]
    by (simp add: issues_for_validate [OF known] issues_for_check_params_other)
qed

lemma validate_issue_type:
  assumes "i \<in> set (snd (validate_vast_request L raw c prog dec))"
  shows "type i = ustr ''invalid'' \<or> type i = ustr ''missing''"
proof (cases "map_of param_rules c")
  case None
  then show ?thesis
    using assms by (simp add: validate_vast_request_def)
next
  case (Some rules)
  show ?thesis
    using assms
    by (auto simp: validate_known [OF Some] split: if_splits dest: check_params_type)
qed

lemma no_warnings: "main_warnings (snd (validate_vast_request L raw c prog dec)) = []"
  using validate_issue_type [of _ L raw c prog dec]
  by (auto simp: main_warnings_def filter_empty_conv)

lemma validate_issue_declared:
  assumes known: "map_of param_rules c = Some rules"
    and i: "i \<in> set (snd (validate_vast_request L raw c prog dec))"
  shows "parameter i \<in> set (declared rules)"
  using i check_params_parameter
  by (fastforce simp: validate_known [OF known] declared_def split: if_splits)

section \<open>The parse of the request\<close>

lemma fold_update_names:
  "fst ` set (fold (\<lambda>(n, v) present. AList.update n (f v) present) ms acc) =
     fst ` set ms \<union> fst ` set acc"
  by (induction ms arbitrary: acc) (auto simp: AList.dom_update split: prod.splits)

lemma parse_params_names:
  "fst ` set (parse_params dec raw) = fst ` set (finditer raw)"
  by (simp add: parse_params_def fold_update_names)

lemma update_apsnd:
  "AList.update k (f v) (map (apsnd f) al) = map (apsnd f) (AList.update k v al)"
  by (induction al) auto

lemma fold_update_apsnd:
  "fold (\<lambda>(n, v) present. AList.update n (f v) present) ms (map (apsnd f) acc) =
     map (apsnd f) (fold (\<lambda>(n, v) present. AList.update n v present) ms acc)"
proof (induction ms arbitrary: acc)
  case Nil
  show ?case by simp
next
  case (Cons m ms)
  obtain n v where m: "m = (n, v)" by (cases m)
  show ?case
    using Cons.IH [of "AList.update n v acc"] by (simp add: m update_apsnd)
qed

lemma parse_params_decode:
  "parse_params True raw = map (apsnd unquote) (parse_params False raw)"
  using fold_update_apsnd [of unquote "finditer raw" "[]"]
  by (simp add: parse_params_def)

lemma parse_vpa_abc: "parse_params False (ustr ''vpa=abc'') = [(ustr ''vpa'', ustr ''abc'')]"
  by (simp add: parse_params_def ustr_def match_pair_def is_name_char_def is_value_char_def)

lemma parse_vpa_empty: "parse_params False (ustr ''vpa='') = [(ustr ''vpa'', [])]"
  by (simp add: parse_params_def ustr_def match_pair_def is_name_char_def is_value_char_def)

lemma parse_nothing: "parse_params dec [] = []"
  by (simp add: parse_params_def)

lemma web_known: "map_of param_rules (ustr ''web'') = Some web_rules"
  by (simp add: param_rules_def)

lemma app_known: "map_of param_rules (ustr ''app'') = Some app_rules"
  by (simp add: param_rules_def)

lemma ctv_known: "map_of param_rules (ustr ''ctv'') = Some ctv_rules"
  by (simp add: param_rules_def)

section \<open>Programmatic parameters when the request is not programmatic\<close>

text \<open>
  C1, as stated, fails. For the implementation type web and the request \<^verbatim>\<open>vpa=abc\<close>, not
  programmatic: \<^verbatim>\<open>vpa\<close> is declared in \<^verbatim>\<open>programmatic_required\<close> with type bool, it is
  present with the value \<^verbatim>\<open>abc\<close>, which fails the check of a bool, and yet no issue names
  \<^verbatim>\<open>vpa\<close>.
\<close>

theorem programmatic_required_unchecked_counterexample:
  "map_of param_rules (ustr ''web'') = Some web_rules
   \<and> map_of (programmatic_required web_rules) (ustr ''vpa'') = Some T_bool
   \<and> map_of (fst (validate_vast_request plain_lib (ustr ''vpa=abc'') (ustr ''web'') False False))
        (ustr ''vpa'') = Some (ustr ''abc'')
   \<and> validate_param plain_lib (ustr ''vpa'') T_bool (ustr ''abc'') \<noteq> []
   \<and> issues_for (ustr ''vpa'')
        (snd (validate_vast_request plain_lib (ustr ''vpa=abc'') (ustr ''web'') False False)) = []"
proof -
  have "ustr ''vpa'' \<in> fst ` set (programmatic_required web_rules)"
    by (simp add: web_rules_def)
  then have "issues_for (ustr ''vpa'')
               (snd (validate_vast_request plain_lib (ustr ''vpa=abc'') (ustr ''web'') False False))
             = []"
    by (rule skipped_round_no_issue [OF web_known])
  moreover have "map_of (programmatic_required web_rules) (ustr ''vpa'') = Some T_bool"
    by (simp add: web_rules_def)
  moreover have "validate_param plain_lib (ustr ''vpa'') T_bool (ustr ''abc'') \<noteq> []"
    by (simp add: validate_param_def)
  ultimately show ?thesis
    by (simp add: web_known present_validate [OF web_known] parse_vpa_abc)
qed

text \<open>
  C1, as amended: for every known implementation type, when the request is not programmatic
  the round of \<^verbatim>\<open>programmatic_required\<close> is skipped as a whole, so no issue is returned for
  a parameter declared there, whether it is absent or present and whatever its value: it is
  not type-checked.
\<close>

theorem programmatic_required_skipped:
  assumes "map_of param_rules implementation_type = Some rules"
    and "p \<in> fst ` set (programmatic_required rules)"
  shows "issues_for p
           (snd (validate_vast_request L vast_request implementation_type False decode_params))
         = []"
  using assms by (rule skipped_round_no_issue)

theorem programmatic_required_skipped_witness:
  "map_of param_rules (ustr ''app'') = Some app_rules
   \<and> ustr ''idtype'' \<in> fst ` set (programmatic_required app_rules)
   \<and> issues_for (ustr ''idtype'')
        (snd (validate_vast_request plain_lib (ustr ''idtype=x'') (ustr ''app'') False True)) = []"
proof -
  have p: "ustr ''idtype'' \<in> fst ` set (programmatic_required app_rules)"
    by (simp add: app_rules_def)
  show ?thesis
    using app_known p
      programmatic_required_skipped [OF app_known p, of plain_lib "ustr ''idtype=x''" True]
    by simp
qed

section \<open>Recommended parameters that are absent\<close>

text \<open>
  C2, as stated, fails. For the implementation type web and the empty request, programmatic:
  \<^verbatim>\<open>aconp\<close> is declared in \<^verbatim>\<open>programmatic_recommended\<close>, it is absent, and no issue at all
  names it.
\<close>

theorem recommended_notice_counterexample:
  "map_of param_rules (ustr ''web'') = Some web_rules
   \<and> map_of (programmatic_recommended web_rules) (ustr ''aconp'') = Some T_bool
   \<and> map_of (fst (validate_vast_request plain_lib [] (ustr ''web'') True False)) (ustr ''aconp'')
       = None
   \<and> issues_for (ustr ''aconp'')
        (snd (validate_vast_request plain_lib [] (ustr ''web'') True False)) = []"
proof -
  have "ustr ''aconp'' \<in> fst ` set (programmatic_recommended web_rules)"
    by (simp add: web_rules_def)
  moreover have "map_of (parse_params False []) (ustr ''aconp'') = None"
    by (simp add: parse_nothing)
  ultimately have "issues_for (ustr ''aconp'')
                     (snd (validate_vast_request plain_lib [] (ustr ''web'') True False)) = []"
    by (rule recommended_absent [OF web_known])
  moreover have "map_of (programmatic_recommended web_rules) (ustr ''aconp'') = Some T_bool"
    by (simp add: web_rules_def)
  ultimately show ?thesis
    by (simp add: web_known present_validate [OF web_known] parse_nothing)
qed

text \<open>
  C2, as amended: for every known implementation type, a parameter declared in
  \<^verbatim>\<open>programmatic_recommended\<close> that is absent from the present parameters causes no issue
  at all; every issue the validator returns has type \<^verbatim>\<open>invalid\<close> or \<^verbatim>\<open>missing\<close>, so the
  list of warnings that \<open>main\<close> builds is empty and an absent recommended parameter never
  makes the result invalid.
\<close>

theorem recommended_absent_no_issue:
  assumes "map_of param_rules implementation_type = Some rules"
    and "p \<in> fst ` set (programmatic_recommended rules)"
    and "map_of (fst (validate_vast_request L vast_request implementation_type is_programmatic
                        decode_params)) p = None"
  shows "issues_for p
           (snd (validate_vast_request L vast_request implementation_type is_programmatic
                   decode_params)) = []
         \<and> main_warnings
             (snd (validate_vast_request L vast_request implementation_type is_programmatic
                     decode_params)) = []"
proof -
  have "map_of (parse_params decode_params vast_request) p = None"
    using assms(3) by (simp add: present_validate [OF assms(1)])
  then show ?thesis
    using recommended_absent [OF assms(1,2)] no_warnings by simp
qed

theorem recommended_absent_no_issue_witness:
  "map_of param_rules (ustr ''ctv'') = Some ctv_rules
   \<and> ustr ''wta'' \<in> fst ` set (programmatic_recommended ctv_rules)
   \<and> map_of (fst (validate_vast_request plain_lib (ustr ''vpa=abc'') (ustr ''ctv'') True False))
        (ustr ''wta'') = None
   \<and> issues_for (ustr ''wta'')
        (snd (validate_vast_request plain_lib (ustr ''vpa=abc'') (ustr ''ctv'') True False)) = []
   \<and> main_warnings
        (snd (validate_vast_request plain_lib (ustr ''vpa=abc'') (ustr ''ctv'') True False)) = []"
proof -
  have p: "ustr ''wta'' \<in> fst ` set (programmatic_recommended ctv_rules)"
    by (simp add: ctv_rules_def)
  have a: "map_of (fst (validate_vast_request plain_lib (ustr ''vpa=abc'') (ustr ''ctv'') True
                          False)) (ustr ''wta'') = None"
    by (simp add: present_validate [OF ctv_known] parse_vpa_abc)
  show ?thesis
    using ctv_known p a recommended_absent_no_issue [OF ctv_known p a] by simp
qed

section \<open>Empty values\<close>

text \<open>
  C7, as stated, fails. For the implementation type web and the request \<^verbatim>\<open>vpa=\<close>, not
  programmatic: \<^verbatim>\<open>vpa\<close> is declared (in \<^verbatim>\<open>programmatic_required\<close>) and present with the
  empty value, and no issue names it.
\<close>

theorem empty_value_counterexample:
  "map_of param_rules (ustr ''web'') = Some web_rules
   \<and> map_of (programmatic_required web_rules) (ustr ''vpa'') = Some T_bool
   \<and> map_of (fst (validate_vast_request plain_lib (ustr ''vpa='') (ustr ''web'') False False))
        (ustr ''vpa'') = Some []
   \<and> issues_for (ustr ''vpa'')
        (snd (validate_vast_request plain_lib (ustr ''vpa='') (ustr ''web'') False False)) = []"
proof -
  have "ustr ''vpa'' \<in> fst ` set (programmatic_required web_rules)"
    by (simp add: web_rules_def)
  then have "issues_for (ustr ''vpa'')
               (snd (validate_vast_request plain_lib (ustr ''vpa='') (ustr ''web'') False False))
             = []"
    by (rule skipped_round_no_issue [OF web_known])
  moreover have "map_of (programmatic_required web_rules) (ustr ''vpa'') = Some T_bool"
    by (simp add: web_rules_def)
  ultimately show ?thesis
    by (simp add: web_known present_validate [OF web_known] parse_vpa_empty)
qed

text \<open>
  C7, as amended: for every known implementation type and every parameter declared in a
  dictionary that the loop visits (\<^verbatim>\<open>required\<close>, \<^verbatim>\<open>programmatic_recommended\<close>, and
  \<^verbatim>\<open>programmatic_required\<close> when the request is programmatic), whatever its rules: if the
  parameter is present with the empty value, the issues that name it are exactly one, of
  type \<^verbatim>\<open>invalid\<close> with the message \<^verbatim>\<open>Parameter value is empty\<close>; no other check adds an
  issue for it.
\<close>

theorem empty_value_invalid:
  assumes "map_of param_rules implementation_type = Some rules"
    and "(p, r) \<in> set (required rules) \<union> set (programmatic_recommended rules)
           \<union> (if is_programmatic then set (programmatic_required rules) else {})"
    and "map_of (fst (validate_vast_request L vast_request implementation_type is_programmatic
                        decode_params)) p = Some []"
  shows "issues_for p
           (snd (validate_vast_request L vast_request implementation_type is_programmatic
                   decode_params))
         = [\<lparr>parameter = p, type = ustr ''invalid'',
              message = ustr ''Parameter value is empty''\<rparr>]"
proof -
  have "map_of (parse_params decode_params vast_request) p = Some []"
    using assms(3) by (simp add: present_validate [OF assms(1)])
  then show ?thesis
    using checked_round_issues [OF assms(1,2)] by (simp add: validate_param_empty)
qed

theorem empty_value_invalid_witness:
  "map_of param_rules (ustr ''web'') = Some web_rules
   \<and> (ustr ''vpa'', T_bool) \<in> set (required web_rules) \<union> set (programmatic_recommended web_rules)
        \<union> (if True then set (programmatic_required web_rules) else {})
   \<and> map_of (fst (validate_vast_request plain_lib (ustr ''vpa='') (ustr ''web'') True False))
        (ustr ''vpa'') = Some []
   \<and> issues_for (ustr ''vpa'')
        (snd (validate_vast_request plain_lib (ustr ''vpa='') (ustr ''web'') True False))
       = [\<lparr>parameter = ustr ''vpa'', type = ustr ''invalid'',
            message = ustr ''Parameter value is empty''\<rparr>]"
proof -
  have p: "(ustr ''vpa'', T_bool) \<in> set (required web_rules)
             \<union> set (programmatic_recommended web_rules)
             \<union> (if True then set (programmatic_required web_rules) else {})"
    by (simp add: web_rules_def)
  have v: "map_of (fst (validate_vast_request plain_lib (ustr ''vpa='') (ustr ''web'') True False))
             (ustr ''vpa'') = Some []"
    by (simp add: present_validate [OF web_known] parse_vpa_empty)
  show ?thesis
    using web_known p v empty_value_invalid [OF web_known p v] by simp
qed

section \<open>Decoding the values\<close>

text \<open>
  C8: for every request, implementation type and programmatic flag, the present parameters
  with and without decoding have the same names, in the same order; decoding only replaces
  each stored value by its \<open>unquote\<close>. \<open>unquote\<close> is a total function: its \<^verbatim>\<open>KeyError\<close>
  branch puts the \<^verbatim>\<open>%\<close> back and its decoder replaces what is not UTF-8, so no value
  makes it raise.
\<close>

theorem decode_keeps_names:
  "map fst (fst (validate_vast_request L vast_request implementation_type is_programmatic True)) =
     map fst (fst (validate_vast_request L vast_request implementation_type is_programmatic False))
   \<and> fst (validate_vast_request L vast_request implementation_type is_programmatic True) =
       map (apsnd unquote)
         (fst (validate_vast_request L vast_request implementation_type is_programmatic False))"
proof (cases "map_of param_rules implementation_type")
  case None
  then show ?thesis
    by (simp add: validate_vast_request_def)
next
  case (Some rules)
  show ?thesis
    by (simp add: present_validate [OF Some] parse_params_decode comp_def)
qed

theorem decode_keeps_names_witness:
  "fst (validate_vast_request plain_lib (ustr ''iu=%2F1&x=%zz'') (ustr ''web'') False False) =
     [(ustr ''iu'', ustr ''%2F1''), (ustr ''x'', ustr ''%zz'')]
   \<and> fst (validate_vast_request plain_lib (ustr ''iu=%2F1&x=%zz'') (ustr ''web'') False True) =
     [(ustr ''iu'', ustr ''/1''), (ustr ''x'', ustr ''%zz'')]"
proof -
  have plain: "parse_params False (ustr ''iu=%2F1&x=%zz'') =
                 [(ustr ''iu'', ustr ''%2F1''), (ustr ''x'', ustr ''%zz'')]"
    by (simp add: parse_params_def ustr_def match_pair_def is_name_char_def is_value_char_def)
  have u1: "unquote (ustr ''%2F1'') = ustr ''/1''"
    by (simp add: unquote_def ustr_def is_ascii_def unquote_to_bytes_def unquote_item_def
        hex_value_def)
  have u2: "unquote (ustr ''%zz'') = ustr ''%zz''"
    by (simp add: unquote_def ustr_def is_ascii_def unquote_to_bytes_def unquote_item_def
        hex_value_def)
  show ?thesis
    using decode_keeps_names [of plain_lib "ustr ''iu=%2F1&x=%zz''" "ustr ''web''" False]
    by (simp add: present_validate [OF web_known] plain u1 u2)
qed

section \<open>Parameters of type str\<close>

text \<open>
  C9: a parameter whose rules have type \<^verbatim>\<open>str\<close> passes with any non-empty value. For every
  known implementation type and every parameter declared with type \<^verbatim>\<open>str\<close> in one of its
  three dictionaries, a present non-empty value leaves no issue that names the parameter; and
  the only error \<open>validate_param\<close> gives for type \<^verbatim>\<open>str\<close> is the one of the empty value.
\<close>

theorem str_value_passes:
  assumes "map_of param_rules implementation_type = Some rules"
    and "(p, T_str) \<in> set (required rules) \<union> set (programmatic_required rules)
           \<union> set (programmatic_recommended rules)"
    and "map_of (fst (validate_vast_request L vast_request implementation_type is_programmatic
                        decode_params)) p = Some v"
    and "v \<noteq> []"
  shows "issues_for p
           (snd (validate_vast_request L vast_request implementation_type is_programmatic
                   decode_params)) = []
         \<and> validate_param L p T_str w =
             (if w = []
              then [\<lparr>parameter = p, type = ustr ''invalid'',
                     message = ustr ''Parameter value is empty''\<rparr>]
              else [])"
proof -
  have v: "map_of (parse_params decode_params vast_request) p = Some v"
    using assms(3) by (simp add: present_validate [OF assms(1)])
  have ok: "validate_param L p T_str v = []"
    using assms(4) by (simp add: validate_param_def)
  have "issues_for p
          (snd (validate_vast_request L vast_request implementation_type is_programmatic
                  decode_params)) = []"
  proof (cases "(p, T_str) \<in> set (required rules) \<union> set (programmatic_recommended rules)
                  \<union> (if is_programmatic then set (programmatic_required rules) else {})")
    case True
    then show ?thesis
      using checked_round_issues [OF assms(1) True v] ok by simp
  next
    case False
    then have "\<not> is_programmatic" and "(p, T_str) \<in> set (programmatic_required rules)"
      using assms(2) by (auto split: if_splits)
    then have "\<not> is_programmatic" and "p \<in> fst ` set (programmatic_required rules)"
      by force+
    then show ?thesis
      using skipped_round_no_issue [OF assms(1)] by simp
  qed
  then show ?thesis
    by (simp add: validate_param_def)
qed

theorem str_value_passes_witness:
  "map_of param_rules (ustr ''web'') = Some web_rules
   \<and> (ustr ''iu'', T_str) \<in> set (required web_rules) \<union> set (programmatic_required web_rules)
        \<union> set (programmatic_recommended web_rules)
   \<and> map_of (fst (validate_vast_request plain_lib (ustr ''iu=%2F1&x=%zz'') (ustr ''web'') True
                     False)) (ustr ''iu'') = Some (ustr ''%2F1'')
   \<and> issues_for (ustr ''iu'')
        (snd (validate_vast_request plain_lib (ustr ''iu=%2F1&x=%zz'') (ustr ''web'') True False))
       = []"
proof -
  have p: "(ustr ''iu'', T_str) \<in> set (required web_rules) \<union> set (programmatic_required web_rules)
             \<union> set (programmatic_recommended web_rules)"
    by (simp add: web_rules_def)
  have plain: "parse_params False (ustr ''iu=%2F1&x=%zz'') =
                 [(ustr ''iu'', ustr ''%2F1''), (ustr ''x'', ustr ''%zz'')]"
    by (simp add: parse_params_def ustr_def match_pair_def is_name_char_def is_value_char_def)
  have v: "map_of (fst (validate_vast_request plain_lib (ustr ''iu=%2F1&x=%zz'') (ustr ''web'')
                          True False)) (ustr ''iu'') = Some (ustr ''%2F1'')"
    by (simp add: present_validate [OF web_known] plain)
  have n: "ustr ''%2F1'' \<noteq> []"
    by simp
  show ?thesis
    using web_known p v str_value_passes [OF web_known p v n] by simp
qed

section \<open>Undeclared parameters\<close>

text \<open>
  C10: for every known implementation type, every issue returned names a parameter that one
  of the three dictionaries of the type declares. The present parameters are all the names
  the request matches, declared or not, and a name that is not declared has no issue.
\<close>

theorem issues_name_declared_parameters:
  assumes "map_of param_rules implementation_type = Some rules"
  shows "parameter ` set (snd (validate_vast_request L vast_request implementation_type
                                 is_programmatic decode_params)) \<subseteq> set (declared rules)
         \<and> fst ` set (fst (validate_vast_request L vast_request implementation_type
                              is_programmatic decode_params)) = fst ` set (finditer vast_request)
         \<and> (p \<notin> set (declared rules) \<longrightarrow>
              issues_for p (snd (validate_vast_request L vast_request implementation_type
                                   is_programmatic decode_params)) = [])"
proof -
  let ?issues = "snd (validate_vast_request L vast_request implementation_type is_programmatic
                        decode_params)"
  have sub: "parameter ` set ?issues \<subseteq> set (declared rules)"
    using validate_issue_declared [OF assms] by blast
  have "issues_for p ?issues = []" if "p \<notin> set (declared rules)"
  proof (rule issues_for_other)
    fix i assume "i \<in> set ?issues"
    then have "parameter i \<in> set (declared rules)" by (rule validate_issue_declared [OF assms])
    with that show "parameter i \<noteq> p" by auto
  qed
  with sub show ?thesis
    by (simp add: present_validate [OF assms] parse_params_names)
qed

theorem issues_name_declared_parameters_witness:
  "map_of param_rules (ustr ''web'') = Some web_rules
   \<and> ustr ''x'' \<notin> set (declared web_rules)
   \<and> ustr ''x'' \<in> fst ` set (fst (validate_vast_request plain_lib (ustr ''iu=%2F1&x=%zz'')
                                      (ustr ''web'') False False))
   \<and> issues_for (ustr ''x'')
        (snd (validate_vast_request plain_lib (ustr ''iu=%2F1&x=%zz'') (ustr ''web'') False False))
       = []"
proof -
  have plain: "parse_params False (ustr ''iu=%2F1&x=%zz'') =
                 [(ustr ''iu'', ustr ''%2F1''), (ustr ''x'', ustr ''%zz'')]"
    by (simp add: parse_params_def ustr_def match_pair_def is_name_char_def is_value_char_def)
  have d: "ustr ''x'' \<notin> set (declared web_rules)"
    by (simp add: declared_def web_rules_def)
  have "ustr ''x'' \<in> fst ` set (fst (validate_vast_request plain_lib (ustr ''iu=%2F1&x=%zz'')
                                        (ustr ''web'') False False))"
    by (simp add: present_validate [OF web_known] plain)
  then show ?thesis
    using web_known d
      issues_name_declared_parameters [OF web_known, where p = "ustr ''x''" and L = plain_lib
        and vast_request = "ustr ''iu=%2F1&x=%zz''" and is_programmatic = False
        and decode_params = False]
    by simp
qed

end
